theory Spec2Isabelle
  imports Complex_Main "HOL-Library.Word"
begin

section \<open>The streaming session manager of \<^verbatim>\<open>src/addons/ai/GeminiManager.ts\<close>\<close>

text \<open>
  The class \<^verbatim>\<open>GeminiManager\<close> captures microphone audio and periodic camera frames,
  forwards them to a streaming transport, and plays the audio the transport sends back.
  Its fields become one record; every call that leaves the class (browser audio, timers,
  the transport, the console, event dispatch) is appended to a trace, and may throw as an
  environment says. A JavaScript exception is an outcome value.
\<close>

subsection \<open>Errors and strings\<close>

text \<open>
  A text string (base64 text, a data URL, a message) is a \<^typ>\<open>string\<close>. A "binary string",
  which \<^verbatim>\<open>atob\<close> returns and \<^verbatim>\<open>btoa\<close> takes, is the list of its UTF-16 code units
  (\<^typ>\<open>nat\<close>), because \<^verbatim>\<open>btoa\<close> throws on a code unit above 255. The elements of a
  \<^verbatim>\<open>Uint8Array\<close> are bytes.
\<close>

type_synonym byte = "8 word"

datatype error =
    Error string
  | TypeError
  | RangeError
  | InvalidCharacterError
  | NotSupportedError
  | ExternalFailure string

subsection \<open>The platform's \<^verbatim>\<open>btoa\<close> and \<open>atob\<close>\<close>

text \<open>
  Both are browser built-ins, specified by the HTML standard ("forgiving-base64 encode" and
  "forgiving-base64 decode") over the alphabet of RFC 4648. \<open>enc6\<close> is the alphabet as a
  function of the 6-bit value, \<open>dec6\<close> its inverse on characters.
\<close>

definition enc6 :: "nat \<Rightarrow> char" where
  "enc6 n =
     (if n < 26 then char_of (65 + n)
      else if n < 52 then char_of (71 + n)
      else if n < 62 then char_of (n - 4)
      else if n = 62 then CHR ''+'' else CHR ''/'')"

definition dec6 :: "char \<Rightarrow> nat option" where
  "dec6 c =
     (let k = (of_char c :: nat) in
      if 65 \<le> k \<and> k \<le> 90 then Some (k - 65)
      else if 97 \<le> k \<and> k \<le> 122 then Some (k - 71)
      else if 48 \<le> k \<and> k \<le> 57 then Some (k + 4)
      else if c = CHR ''+'' then Some 62
      else if c = CHR ''/'' then Some 63
      else None)"

text \<open>Three bytes become four characters; one or two bytes left over are padded with \<open>=\<close>.\<close>

fun b64enc :: "nat list \<Rightarrow> string" where
  "b64enc (a # b # c # r) =
     enc6 (a div 4) # enc6 ((a mod 4) * 16 + b div 16) #
     enc6 ((b mod 16) * 4 + c div 64) # enc6 (c mod 64) # b64enc r"
| "b64enc [a, b] =
     [enc6 (a div 4), enc6 ((a mod 4) * 16 + b div 16), enc6 ((b mod 16) * 4), CHR ''='']"
| "b64enc [a] = [enc6 (a div 4), enc6 ((a mod 4) * 16), CHR ''='', CHR ''='']"
| "b64enc [] = []"

definition btoa :: "nat list \<Rightarrow> error + string" where
  "btoa s = (if \<exists>u \<in> set s. 255 < u then Inl InvalidCharacterError else Inr (b64enc s))"

text \<open>
  Decoding: ASCII whitespace is removed; when the length is then a multiple of four, one or
  two trailing \<open>=\<close> are removed; a length of 1 modulo 4 or a character outside the alphabet
  fails; every four characters give three bytes, and two or three characters left over
  give one or two bytes, their spare low bits dropped.
\<close>

definition ascii_whitespace :: "char \<Rightarrow> bool" where
  "ascii_whitespace c = ((of_char c :: nat) \<in> {9, 10, 12, 13, 32})"

definition strip_padding :: "string \<Rightarrow> string" where
  "strip_padding d =
     (if length d mod 4 = 0 \<and> d \<noteq> [] \<and> last d = CHR ''=''
      then (let d1 = butlast d in
            if d1 \<noteq> [] \<and> last d1 = CHR ''='' then butlast d1 else d1)
      else d)"

fun b64dec :: "nat list \<Rightarrow> nat list" where
  "b64dec (a # b # c # d # r) =
     (a * 4 + b div 16) # ((b mod 16) * 16 + c div 4) # ((c mod 4) * 64 + d) # b64dec r"
| "b64dec [a, b, c] = [a * 4 + b div 16, (b mod 16) * 16 + c div 4]"
| "b64dec [a, b] = [a * 4 + b div 16]"
| "b64dec [a] = []"
| "b64dec [] = []"

fun sextets :: "string \<Rightarrow> nat list option" where
  "sextets [] = Some []"
| "sextets (c # cs) =
     (case dec6 c of
        None \<Rightarrow> None
      | Some v \<Rightarrow> (case sextets cs of None \<Rightarrow> None | Some vs \<Rightarrow> Some (v # vs)))"

definition atob :: "string \<Rightarrow> error + nat list" where
  "atob s =
     (let d = strip_padding (filter (\<lambda>c. \<not> ascii_whitespace c) s) in
      if length d mod 4 = 1 then Inl InvalidCharacterError
      else (case sextets d of
              None \<Rightarrow> Inl InvalidCharacterError
            | Some vs \<Rightarrow> Inr (b64dec vs)))"

subsection \<open>The two conversion helpers\<close>

text \<open>
  \<^verbatim>\<open>arrayBufferToBase64\<close> appends \<^verbatim>\<open>String.fromCharCode(bytes[i])\<close> for each byte and
  calls \<^verbatim>\<open>btoa\<close>; \<^verbatim>\<open>base64ToArrayBuffer\<close> calls \<^verbatim>\<open>atob\<close> and stores
  \<^verbatim>\<open>charCodeAt(i)\<close> into a new \<^verbatim>\<open>Uint8Array\<close>, which keeps the value modulo 256.
\<close>

definition fromCharCode :: "byte \<Rightarrow> nat" where
  "fromCharCode b = unat b"

definition arrayBufferToBase64 :: "byte list \<Rightarrow> error + string" where
  "arrayBufferToBase64 buffer = btoa (map fromCharCode buffer)"

definition base64ToArrayBuffer :: "string \<Rightarrow> error + byte list" where
  "base64ToArrayBuffer base64 =
     (case atob base64 of
        Inl e \<Rightarrow> Inl e
      | Inr binaryString \<Rightarrow> Inr (map (\<lambda>u. (of_nat u :: byte)) binaryString))"

subsection \<open>Decoding 16-bit PCM\<close>

text \<open>
  \<^verbatim>\<open>new Int16Array(arrayBuffer)\<close> views the bytes as two's-complement 16-bit samples, low
  byte first, and throws a \<^verbatim>\<open>RangeError\<close> when the byte length is odd.
\<close>

fun int16_pairs :: "byte list \<Rightarrow> int list" where
  "int16_pairs (lo # hi # r) = sint (word_cat hi lo :: 16 word) # int16_pairs r"
| "int16_pairs [lo] = []"
| "int16_pairs [] = []"

definition Int16Array :: "byte list \<Rightarrow> error + int list" where
  "Int16Array arrayBuffer =
     (if odd (length arrayBuffer) then Inl RangeError else Inr (int16_pairs arrayBuffer))"

text \<open>
  A playback segment is an \<^verbatim>\<open>AudioBuffer\<close> of one channel: its sample rate and its
  samples. Each sample is a 16-bit integer divided by 32768, a dyadic rational that both
  the double of the division and the 32-bit float of the channel hold exactly, so the
  samples are modelled as reals without rounding.
  \<^verbatim>\<open>createBuffer\<close> throws \<^verbatim>\<open>NotSupportedError\<close> on a length or channel count of
  zero; its length argument is truncated to an integer (hence the \<open>div 2\<close> at the caller).
\<close>

datatype audio_buffer = AudioBuffer (bufferRate: nat) (channelData: "real list")

definition createBuffer :: "nat \<Rightarrow> nat \<Rightarrow> nat \<Rightarrow> error + audio_buffer" where
  "createBuffer numberOfChannels len rate =
     (if numberOfChannels = 0 \<or> len = 0 then Inl NotSupportedError
      else Inr (AudioBuffer rate (replicate len 0)))"

text \<open>
  The loop \<^verbatim>\<open>for (i = 0; i < int16View.length; i++) channelData[i] = int16View[i] / 32768.0\<close>.
  A write past the end of a typed array is ignored, as a list update past the end is.
\<close>

fun write_samples :: "nat \<Rightarrow> int list \<Rightarrow> real list \<Rightarrow> real list" where
  "write_samples i [] channel = channel"
| "write_samples i (v # vs) channel =
     write_samples (Suc i) vs (channel[i := real_of_int v / 32768])"

text \<open>
  Lines 203 to 210 of \<^verbatim>\<open>playAudioChunk\<close>: the buffer of \<open>byteLength / 2\<close> frames at
  24000 Hz, the 16-bit view, the loop. \<open>decode_segment\<close> puts line 202 before them.
\<close>

definition segment_of :: "byte list \<Rightarrow> error + audio_buffer" where
  "segment_of arrayBuffer =
     (case createBuffer 1 (length arrayBuffer div 2) 24000 of
        Inl e \<Rightarrow> Inl e
      | Inr audioBuffer \<Rightarrow>
          (case Int16Array arrayBuffer of
             Inl e \<Rightarrow> Inl e
           | Inr int16View \<Rightarrow>
               Inr (AudioBuffer (bufferRate audioBuffer)
                     (write_samples 0 int16View (channelData audioBuffer)))))"

definition decode_segment :: "string \<Rightarrow> error + audio_buffer" where
  "decode_segment audioData =
     (case base64ToArrayBuffer audioData of
        Inl e \<Rightarrow> Inl e
      | Inr arrayBuffer \<Rightarrow> segment_of arrayBuffer)"

subsection \<open>The manager's state and its collaborators\<close>

datatype audio_context = AudioContext (contextRate: nat)

datatype media_stream = MediaStream (audioTracks: nat) (tracks: nat)

datatype realtime_input =
    AudioInput string string
  | VideoInput "string option" string

datatype session_event =
    InputTranscription string
  | OutputTranscription string
  | TurnComplete

text \<open>
  The inbound message, with every optional member an \<open>option\<close>:
  \<^verbatim>\<open>{data?, serverContent?: {inputTranscription?: {text?}, outputTranscription?: {text?}, turnComplete?}}\<close>.
\<close>

datatype transcription = Transcription (fragment: "string option")

record server_content =
  inputTranscription :: "transcription option"
  outputTranscription :: "transcription option"
  turnComplete :: "bool option"

record live_server_message =
  data :: "string option"
  serverContent :: "server_content option"

text \<open>
  Everything the manager does to the outside, in the order it does it. The one internal
  step recorded is the push onto \<^verbatim>\<open>audioQueue\<close>, so that its place among the
  dispatched events can be read off the trace.
\<close>

datatype effect =
    ConsoleWarn string
  | ConsoleError string
  | GetUserMedia
  | NewAudioContext nat
  | AddModule
  | CreateMediaStreamSource
  | NewAudioWorkletNode
  | ConnectCaptureGraph
  | SetLiveCallbacks
  | StartLiveSession
  | StopLiveSession
  | SetInterval nat
  | ClearInterval
  | GetSnapshot
  | SendRealtimeInput realtime_input
  | ProcessorDisconnect
  | SourceDisconnect
  | ContextClose audio_context
  | TrackStop
  | DispatchEvent session_event
  | AudioQueuePush audio_buffer
  | CreateBufferSource audio_context
  | ConnectSource
  | SourceStart audio_buffer

text \<open>
  What the transport does after \<^verbatim>\<open>startLiveSession\<close>: it calls \<^verbatim>\<open>onopen\<close>, or
  \<^verbatim>\<open>onerror\<close>, or neither. What the camera's \<^verbatim>\<open>getSnapshot\<close> returns: a string or
  something else.
\<close>

datatype live_signal = SignalOpen | SignalError | SignalNone

datatype snapshot_value = SnapshotString string | SnapshotOther

text \<open>
  The environment of one call: which outside calls throw (or reject), and what the
  collaborators return. \<open>hasStopLiveSession\<close> and \<open>hasSendRealtimeInput\<close> are the
  truthiness of those members of the \<^verbatim>\<open>xb.AI\<close> object.
\<close>

record env =
  throws :: "effect \<Rightarrow> bool"
  userMedia :: media_stream
  liveSignal :: live_signal
  snapshot :: snapshot_value
  hasStopLiveSession :: bool
  hasSendRealtimeInput :: bool

text \<open>
  How a call ends: it returns, it throws (for an async function: its promise rejects), or
  its promise never settles.
\<close>

datatype outcome = Returned | Thrown error | Pending

text \<open>
  An async function runs, when called, up to its first \<^verbatim>\<open>await\<close>; what follows the
  \<^verbatim>\<open>await\<close> is run by the event loop as a microtask, after the code that made the call
  has returned. \<^verbatim>\<open>startGeminiLive\<close> and \<^verbatim>\<open>stopGeminiLive\<close> are awaited by their
  callers and are modelled from call to settled promise. \<^verbatim>\<open>playAudioChunk\<close> is called
  by \<^verbatim>\<open>handleAIMessage\<close> without \<^verbatim>\<open>await\<close>, so its continuation is modelled as
  what it is, a microtask; it carries the payload and how the awaited
  \<^verbatim>\<open>initializeAudioContext\<close> ended.
\<close>

datatype microtask = PlayAudioChunkResume string outcome

text \<open>
  The fields of the class, then three fields of the model: the trace, the queue of
  microtasks, and the buffer sources that were started and have not ended yet.
  \<open>xrDeviceCamera\<close>, \<open>ai\<close>, \<open>sourceNode\<close> and \<open>processorNode\<close> record whether the
  member is set; \<open>screenshotInterval\<close> holds the interval of the running timer.
\<close>

record manager =
  xrDeviceCamera :: bool
  ai :: bool
  audioStream :: "media_stream option"
  audioContext :: "audio_context option"
  sourceNode :: bool
  processorNode :: bool
  isAIRunning :: bool
  audioQueue :: "audio_buffer list"
  isPlayingAudio :: bool
  screenshotInterval :: "nat option"
  currentInputText :: string
  currentOutputText :: string
  trace :: "effect list"
  microtasks :: "microtask list"
  playing :: "audio_buffer list"

text \<open>The state after the constructor and \<^verbatim>\<open>init()\<close>.\<close>

definition initial :: "bool \<Rightarrow> bool \<Rightarrow> manager" where
  "initial camera aiAvailable =
     \<lparr> xrDeviceCamera = camera, ai = aiAvailable, audioStream = None, audioContext = None,
       sourceNode = False, processorNode = False, isAIRunning = False, audioQueue = [],
       isPlayingAudio = False, screenshotInterval = None, currentInputText = [],
       currentOutputText = [], trace = [], microtasks = [], playing = [] \<rparr>"

subsection \<open>Sequencing, exceptions\<close>

text \<open>
  An action is a function from the state to an outcome and the state it leaves. \<open>Thrown\<close>
  is an exception (a rejected promise, for an async function), \<open>Pending\<close> a promise that
  never settles.
\<close>

type_synonym action = "manager \<Rightarrow> outcome \<times> manager"

definition ret :: action where
  "ret s = (Returned, s)"

definition throw :: "error \<Rightarrow> action" where
  "throw e s = (Thrown e, s)"

definition modify :: "(manager \<Rightarrow> manager) \<Rightarrow> action" where
  "modify f s = (Returned, f s)"

definition emit :: "effect \<Rightarrow> manager \<Rightarrow> manager" where
  "emit e s = s\<lparr>trace := trace s @ [e]\<rparr>"

definition outside :: "env \<Rightarrow> effect \<Rightarrow> action" where
  "outside en e s = (if throws en e then Thrown (ExternalFailure ''call failed'') else Returned, emit e s)"

definition andThen :: "action \<Rightarrow> action \<Rightarrow> action" where
  "andThen f g s = (case f s of (Returned, s') \<Rightarrow> g s' | (r, s') \<Rightarrow> (r, s'))"

definition tryCatch :: "action \<Rightarrow> (error \<Rightarrow> action) \<Rightarrow> action" where
  "tryCatch f h s = (case f s of (Thrown e, s') \<Rightarrow> h e s' | (r, s') \<Rightarrow> (r, s'))"

definition whenever :: "(manager \<Rightarrow> bool) \<Rightarrow> action \<Rightarrow> action" where
  "whenever c f s = (if c s then f s else ret s)"

fun forEach :: "nat \<Rightarrow> action \<Rightarrow> action" where
  "forEach 0 f = ret"
| "forEach (Suc n) f = andThen f (forEach n f)"

subsection \<open>Teardown\<close>

text \<open>\<^verbatim>\<open>cleanup()\<close>, lines 241 to 270, statement by statement.\<close>

definition cleanup :: "env \<Rightarrow> action" where
  "cleanup en =
     andThen (whenever (\<lambda>s. screenshotInterval s \<noteq> None)
        (andThen (outside en ClearInterval) (modify (\<lambda>s. s\<lparr>screenshotInterval := None\<rparr>))))
    (andThen (modify (\<lambda>s. s\<lparr>audioQueue := [], isPlayingAudio := False\<rparr>))
    (andThen (whenever processorNode
        (andThen (outside en ProcessorDisconnect) (modify (\<lambda>s. s\<lparr>processorNode := False\<rparr>))))
    (andThen (whenever sourceNode
        (andThen (outside en SourceDisconnect) (modify (\<lambda>s. s\<lparr>sourceNode := False\<rparr>))))
    (andThen (\<lambda>s. case audioContext s of
                      None \<Rightarrow> ret s
                    | Some ctx \<Rightarrow>
                        andThen (outside en (ContextClose ctx))
                          (modify (\<lambda>s. s\<lparr>audioContext := None\<rparr>)) s)
            (\<lambda>s. case audioStream s of
                      None \<Rightarrow> ret s
                    | Some stream \<Rightarrow>
                        andThen (forEach (tracks stream) (outside en TrackStop))
                          (modify (\<lambda>s. s\<lparr>audioStream := None\<rparr>)) s)))))"


subsection \<open>Starting a session\<close>

text \<open>\<^verbatim>\<open>setupAudioCapture()\<close>, lines 82 to 112.\<close>

definition setupAudioCapture :: "env \<Rightarrow> action" where
  "setupAudioCapture en =
     andThen (outside en GetUserMedia)
    (andThen (modify (\<lambda>s. s\<lparr>audioStream := Some (userMedia en)\<rparr>))
    (andThen (\<lambda>s. if audioTracks (userMedia en) = 0
                   then throw (Error ''No audio tracks found.'') s else ret s)
    (andThen (outside en (NewAudioContext 16000))
    (andThen (modify (\<lambda>s. s\<lparr>audioContext := Some (AudioContext 16000)\<rparr>))
    (andThen (outside en AddModule)
    (andThen (outside en CreateMediaStreamSource)
    (andThen (modify (\<lambda>s. s\<lparr>sourceNode := True\<rparr>))
    (andThen (outside en NewAudioWorkletNode)
    (andThen (modify (\<lambda>s. s\<lparr>processorNode := True\<rparr>))
             (outside en ConnectCaptureGraph))))))))))"

text \<open>
  \<^verbatim>\<open>startLiveAI()\<close>, lines 114 to 134: the promise resolves in \<^verbatim>\<open>onopen\<close>, rejects in
  \<^verbatim>\<open>onerror\<close> or when \<^verbatim>\<open>startLiveSession\<close> rejects, and stays pending otherwise.
\<close>

definition startLiveAI :: "env \<Rightarrow> action" where
  "startLiveAI en =
     andThen (outside en SetLiveCallbacks)
    (andThen (outside en StartLiveSession)
       (\<lambda>s. case liveSignal en of
               SignalOpen \<Rightarrow> ret s
             | SignalError \<Rightarrow>
                 (Thrown (ExternalFailure ''ErrorEvent''), emit (ConsoleError ''Live AI error:'') s)
             | SignalNone \<Rightarrow> (Pending, s)))"

text \<open>\<^verbatim>\<open>startScreenshotCapture(intervalMs)\<close>, lines 136 to 144.\<close>

definition startScreenshotCapture :: "env \<Rightarrow> nat \<Rightarrow> action" where
  "startScreenshotCapture en intervalMs s =
     (if screenshotInterval s \<noteq> None
      then ret (emit (ConsoleError ''Screenshot interval already running'') s)
      else andThen (outside en (SetInterval intervalMs))
             (modify (\<lambda>s. s\<lparr>screenshotInterval := Some intervalMs\<rparr>)) s)"

text \<open>
  \<^verbatim>\<open>startGeminiLive()\<close>, lines 45 to 61. The \<^verbatim>\<open>catch\<close> logs, runs \<^verbatim>\<open>cleanup()\<close> and
  throws the error again.
\<close>

definition startGeminiLive :: "env \<Rightarrow> action" where
  "startGeminiLive en s =
     (if isAIRunning s \<or> \<not> ai s
      then ret (emit (ConsoleWarn ''AI already running or not available'') s)
      else tryCatch
        (andThen (setupAudioCapture en)
        (andThen (startLiveAI en)
        (andThen (startScreenshotCapture en 1000)
                 (modify (\<lambda>s. s\<lparr>isAIRunning := True\<rparr>)))))
        (\<lambda>e. andThen (modify (emit (ConsoleError ''Failed to start Gemini Live:'')))
              (andThen (cleanup en) (throw e))) s)"

text \<open>The transport's \<^verbatim>\<open>onclose\<close> callback, lines 127 to 129.\<close>

definition onclose :: action where
  "onclose = modify (\<lambda>s. s\<lparr>isAIRunning := False\<rparr>)"

subsection \<open>Sending\<close>

text \<open>\<^verbatim>\<open>sendAudioData(audioBuffer)\<close>, lines 165 to 177.\<close>

definition sendAudioData :: "env \<Rightarrow> byte list \<Rightarrow> action" where
  "sendAudioData en audioBuffer s =
     (if \<not> isAIRunning s \<or> \<not> ai s \<or> \<not> hasSendRealtimeInput en
      then throw (Error ''AI not ready to send audio clip.'') s
      else tryCatch
        (\<lambda>s. case arrayBufferToBase64 audioBuffer of
                Inl e \<Rightarrow> throw e s
              | Inr base64Audio \<Rightarrow>
                  outside en
                    (SendRealtimeInput (AudioInput base64Audio ''audio/pcm;rate=16000'')) s)
        (\<lambda>e. modify (emit (ConsoleError ''Failed to send audio:''))) s)"

text \<open>
  \<^verbatim>\<open>sendVideoFrame(base64Image)\<close>, lines 179 to 191. The argument is \<open>None\<close> when the
  caller passes \<^verbatim>\<open>undefined\<close>.
\<close>

definition sendVideoFrame :: "env \<Rightarrow> string option \<Rightarrow> action" where
  "sendVideoFrame en base64Image s =
     (if \<not> isAIRunning s \<or> \<not> ai s \<or> \<not> hasSendRealtimeInput en
      then throw (Error ''AI not ready to send video frame'') s
      else tryCatch
        (outside en (SendRealtimeInput (VideoInput base64Image ''image/jpeg'')))
        (\<lambda>e. andThen (modify (emit (ConsoleError ''Failed to send video frame:'')))
                      (modify (emit (ConsoleError ''Error stack:'')))) s)"

text \<open>The capture processor's \<^verbatim>\<open>port.onmessage\<close>, lines 104 to 108.\<close>

definition processor_onmessage :: "env \<Rightarrow> bool \<Rightarrow> byte list \<Rightarrow> action" where
  "processor_onmessage en isAudioData samples s =
     (if isAudioData \<and> isAIRunning s then sendAudioData en samples s else ret s)"

subsection \<open>The frame sampler\<close>

text \<open>
  \<^verbatim>\<open>String.prototype.split\<close> with a one-character separator (it returns at least one
  piece), and the element at an index, \<open>None\<close> for \<^verbatim>\<open>undefined\<close>.
\<close>

fun split :: "char \<Rightarrow> string \<Rightarrow> string list" where
  "split sep [] = [[]]"
| "split sep (c # cs) =
     (if c = sep then [] # split sep cs
      else (case split sep cs of p # ps \<Rightarrow> (c # p) # ps | [] \<Rightarrow> [[c]]))"

definition element :: "'a list \<Rightarrow> nat \<Rightarrow> 'a option" where
  "element xs i = (if i < length xs then Some (xs ! i) else None)"

definition startsWith :: "string \<Rightarrow> string \<Rightarrow> bool" where
  "startsWith s p = (take (length p) s = p)"

definition strip_data_url :: "string \<Rightarrow> string option" where
  "strip_data_url base64Image =
     (if startsWith base64Image ''data:'' then element (split CHR '','' base64Image) 1
      else Some base64Image)"

text \<open>
  \<^verbatim>\<open>captureAndSendScreenshot()\<close>, lines 146 to 163. A missing camera makes the member
  access throw inside the \<^verbatim>\<open>try\<close>.
\<close>

definition captureAndSendScreenshot :: "env \<Rightarrow> action" where
  "captureAndSendScreenshot en =
     tryCatch
       (\<lambda>s. if \<not> xrDeviceCamera s then throw TypeError s
             else andThen (outside en GetSnapshot)
                    (\<lambda>s. case snapshot en of
                            SnapshotString base64Image \<Rightarrow>
                              sendVideoFrame en (strip_data_url base64Image) s
                          | SnapshotOther \<Rightarrow> ret s) s)
       (\<lambda>e. modify (emit (ConsoleError ''Failed to capture screenshot:'')))"

text \<open>
  The timer of \<^verbatim>\<open>startScreenshotCapture\<close> calls \<^verbatim>\<open>captureAndSendScreenshot\<close> on every
  tick for as long as the interval is set; each tick meets its own environment. A tick
  whose callback throws would report \<open>Thrown\<close> to the timer driver.
\<close>

definition tick :: "env \<Rightarrow> action" where
  "tick en s = (if screenshotInterval s = None then ret s else captureAndSendScreenshot en s)"

fun ticks :: "env list \<Rightarrow> manager \<Rightarrow> outcome list \<times> manager" where
  "ticks [] s = ([], s)"
| "ticks (en # ens) s =
     (case tick en s of (r, s') \<Rightarrow> (case ticks ens s' of (rs, s'') \<Rightarrow> (r # rs, s'')))"

subsection \<open>Playback\<close>

text \<open>\<^verbatim>\<open>initializeAudioContext()\<close>, lines 193 to 197.\<close>

definition initializeAudioContext :: "env \<Rightarrow> action" where
  "initializeAudioContext en s =
     (if audioContext s = None
      then andThen (outside en (NewAudioContext 24000))
             (modify (\<lambda>s. s\<lparr>audioContext := Some (AudioContext 24000)\<rparr>)) s
      else ret s)"

text \<open>
  \<^verbatim>\<open>playNextAudioBuffer()\<close>, lines 222 to 239. \<^verbatim>\<open>this.audioContext!\<close> throws a
  \<^verbatim>\<open>TypeError\<close> when the field is null. A source that was started is played until its
  \<^verbatim>\<open>onended\<close> runs.
\<close>

definition playNextAudioBuffer :: "env \<Rightarrow> action" where
  "playNextAudioBuffer en s =
     (case audioQueue s of
        [] \<Rightarrow> ret (s\<lparr>isPlayingAudio := False\<rparr>)
      | audioBuffer # rest \<Rightarrow>
          (let s1 = s\<lparr>isPlayingAudio := True, audioQueue := rest\<rparr> in
           case audioContext s1 of
             None \<Rightarrow> throw TypeError s1
           | Some ctx \<Rightarrow>
               andThen (outside en (CreateBufferSource ctx))
              (andThen (outside en ConnectSource)
              (andThen (outside en (SourceStart audioBuffer))
                       (modify (\<lambda>s. s\<lparr>playing := playing s @ [audioBuffer]\<rparr>)))) s1))"

text \<open>
  The \<^verbatim>\<open>onended\<close> callback of the source that is playing: the source is over, and the
  next buffer is taken.
\<close>

definition source_onended :: "env \<Rightarrow> action" where
  "source_onended en s = playNextAudioBuffer en (s\<lparr>playing := tl (playing s)\<rparr>)"

text \<open>Lines 212 to 216 of \<^verbatim>\<open>playAudioChunk\<close>: the push, and the start when idle.\<close>

definition enqueue :: "env \<Rightarrow> audio_buffer \<Rightarrow> action" where
  "enqueue en audioBuffer =
     andThen (modify (\<lambda>s. emit (AudioQueuePush audioBuffer)
                             (s\<lparr>audioQueue := audioQueue s @ [audioBuffer]\<rparr>)))
             (whenever (\<lambda>s. \<not> isPlayingAudio s) (playNextAudioBuffer en))"

text \<open>
  \<^verbatim>\<open>playAudioChunk(audioData)\<close>, lines 199 to 220. The call runs up to the \<^verbatim>\<open>await\<close>:
  the body of \<^verbatim>\<open>initializeAudioContext\<close>; the rest is a microtask. The caller gets a
  promise at once, whatever happened.
\<close>

definition playAudioChunk :: "env \<Rightarrow> string \<Rightarrow> action" where
  "playAudioChunk en audioData s =
     (case initializeAudioContext en s of
        (r, s') \<Rightarrow>
          (Returned, s'\<lparr>microtasks := microtasks s' @ [PlayAudioChunkResume audioData r]\<rparr>))"

text \<open>The rest of \<^verbatim>\<open>playAudioChunk\<close>, after the \<^verbatim>\<open>await\<close>, inside the same \<^verbatim>\<open>try\<close>.\<close>

definition playAudioChunk_resume :: "env \<Rightarrow> string \<Rightarrow> outcome \<Rightarrow> action" where
  "playAudioChunk_resume en audioData awaited =
     tryCatch
       (\<lambda>s. case awaited of
               Thrown e \<Rightarrow> throw e s
             | Pending \<Rightarrow> (Pending, s)
             | Returned \<Rightarrow>
                 (case base64ToArrayBuffer audioData of
                    Inl e \<Rightarrow> throw e s
                  | Inr arrayBuffer \<Rightarrow>
                      (case audioContext s of
                         None \<Rightarrow> throw TypeError s
                       | Some ctx \<Rightarrow>
                           (case segment_of arrayBuffer of
                              Inl e \<Rightarrow> throw e s
                            | Inr audioBuffer \<Rightarrow> enqueue en audioBuffer s))))
       (\<lambda>e. modify (emit (ConsoleError ''Error playing audio chunk:'')))"

subsection \<open>Inbound messages\<close>

text \<open>
  \<^verbatim>\<open>handleAIMessage(message)\<close>, lines 272 to 295. A string is truthy when it is defined
  and not empty. \<^verbatim>\<open>playAudioChunk\<close> is called and not awaited.
\<close>

definition dispatchTranscription ::
  "env \<Rightarrow> (string \<Rightarrow> session_event) \<Rightarrow> transcription option \<Rightarrow> action" where
  "dispatchTranscription en ev t s =
     (case t of
        None \<Rightarrow> ret s
      | Some (Transcription None) \<Rightarrow> ret s
      | Some (Transcription (Some txt)) \<Rightarrow>
          if txt \<noteq> [] then outside en (DispatchEvent (ev txt)) s else ret s)"

definition handleAIMessage :: "env \<Rightarrow> live_server_message \<Rightarrow> action" where
  "handleAIMessage en message =
     andThen
       (\<lambda>s. case data message of
               None \<Rightarrow> ret s
             | Some d \<Rightarrow> if d \<noteq> [] then playAudioChunk en d s else ret s)
       (\<lambda>s. case serverContent message of
               None \<Rightarrow> ret s
             | Some content \<Rightarrow>
                 andThen (dispatchTranscription en InputTranscription (inputTranscription content))
                (andThen (dispatchTranscription en OutputTranscription (outputTranscription content))
                         (whenever (\<lambda>s. turnComplete content = Some True)
                            (outside en (DispatchEvent TurnComplete)))) s)"

text \<open>
  One turn of the event loop for a callback: the callback runs to its end, then the
  microtasks it queued run in the order they were queued.
\<close>

fun run_microtasks :: "env \<Rightarrow> microtask list \<Rightarrow> manager \<Rightarrow> manager" where
  "run_microtasks en [] s = s"
| "run_microtasks en (PlayAudioChunkResume audioData awaited # ms) s =
     run_microtasks en ms (snd (playAudioChunk_resume en audioData awaited s))"

definition task :: "env \<Rightarrow> action \<Rightarrow> action" where
  "task en callback s =
     (case callback s of
        (r, s') \<Rightarrow> (r, run_microtasks en (microtasks s') (s'\<lparr>microtasks := []\<rparr>)))"

text \<open>The transport's \<^verbatim>\<open>onmessage\<close> callback, lines 120 to 122, as one such turn.\<close>

definition onmessage :: "env \<Rightarrow> live_server_message \<Rightarrow> action" where
  "onmessage en message = task en (handleAIMessage en message)"

subsection \<open>Runs of the playback loop\<close>

text \<open>
  The playback loop is driven by two events: a decoded segment is enqueued, or the source
  that is playing ends. The second can only happen while a source plays.
\<close>

datatype playback_event = Enqueue audio_buffer | Ended

fun playback_step :: "env \<Rightarrow> playback_event \<Rightarrow> manager \<Rightarrow> manager option" where
  "playback_step en (Enqueue audioBuffer) s = Some (snd (enqueue en audioBuffer s))"
| "playback_step en Ended s =
     (if playing s = [] then None else Some (snd (source_onended en s)))"

fun playback_run :: "env \<Rightarrow> playback_event list \<Rightarrow> manager \<Rightarrow> manager option" where
  "playback_run en [] s = Some s"
| "playback_run en (ev # evs) s =
     (case playback_step en ev s of None \<Rightarrow> None | Some s' \<Rightarrow> playback_run en evs s')"

fun enqueued :: "playback_event list \<Rightarrow> audio_buffer list" where
  "enqueued [] = []"
| "enqueued (Enqueue b # evs) = b # enqueued evs"
| "enqueued (Ended # evs) = enqueued evs"

fun completions :: "playback_event list \<Rightarrow> nat" where
  "completions [] = 0"
| "completions (Enqueue b # evs) = completions evs"
| "completions (Ended # evs) = Suc (completions evs)"

text \<open>The segments whose playback was started, in the order of the trace.\<close>

fun started :: "effect list \<Rightarrow> audio_buffer list" where
  "started [] = []"
| "started (SourceStart b # es) = b # started es"
| "started (e # es) = started es"

text \<open>
  The playback state is consistent when a context exists, at most one source plays, the
  flag says whether one plays, and segments wait only while one plays.
\<close>

definition playback_consistent :: "manager \<Rightarrow> bool" where
  "playback_consistent s =
     (audioContext s \<noteq> None \<and> length (playing s) \<le> 1 \<and>
      (isPlayingAudio s = (playing s \<noteq> [])) \<and>
      (isPlayingAudio s \<or> audioQueue s = []))"

subsection \<open>Concrete environments and states\<close>

text \<open>
  An environment in which nothing fails, the transport opens and the camera returns a
  data URL; the state of a manager whose session was started in it; and an inbound message
  with two bytes of audio (one sample, \<open>-32768\<close>) and the turn-complete marker.
\<close>

definition calm :: env where
  "calm = \<lparr> throws = (\<lambda>e. False), userMedia = MediaStream 1 1, liveSignal = SignalOpen,
     snapshot = SnapshotString ''data:image/jpeg;base64,QUJD'', hasStopLiveSession = True,
     hasSendRealtimeInput = True \<rparr>"

definition running :: manager where
  "running = snd (startGeminiLive calm (initial True True))"

definition audio_and_turn :: live_server_message where
  "audio_and_turn =
     \<lparr> data = Some ''AIA='',
       serverContent = Some \<lparr> inputTranscription = None, outputTranscription = None,
                              turnComplete = Some True \<rparr> \<rparr>"

text \<open>
  The same manager after two such messages, so that one segment plays and one waits;
  and an environment like \<open>calm\<close> in which the transport's \<^verbatim>\<open>stopLiveSession\<close> rejects.
\<close>

definition busy :: manager where
  "busy = snd (onmessage calm audio_and_turn (snd (onmessage calm audio_and_turn running)))"


subsection \<open>The teardown steps\<close>




subsection \<open>The unpadded encoding\<close>

text \<open>
  \<open>b64enc\<close> is \<open>b64body\<close> followed by \<open>b64pad\<close>; the two are only used in proofs, to say
  what the decoder sees after it has removed the padding.
\<close>

fun b64body :: "nat list \<Rightarrow> string" where
  "b64body (a # b # c # r) =
     enc6 (a div 4) # enc6 ((a mod 4) * 16 + b div 16) #
     enc6 ((b mod 16) * 4 + c div 64) # enc6 (c mod 64) # b64body r"
| "b64body [a, b] = [enc6 (a div 4), enc6 ((a mod 4) * 16 + b div 16), enc6 ((b mod 16) * 4)]"
| "b64body [a] = [enc6 (a div 4), enc6 ((a mod 4) * 16)]"
| "b64body [] = []"

fun b64pad :: "nat list \<Rightarrow> string" where
  "b64pad (a # b # c # r) = b64pad r"
| "b64pad [a, b] = [CHR ''='']"
| "b64pad [a] = [CHR ''='', CHR ''='']"
| "b64pad [] = []"


section \<open>Properties\<close>

subsection \<open>Base64\<close>

lemma dec6_enc6: "n < 64 \<Longrightarrow> dec6 (enc6 n) = Some n"
  by (auto simp add: enc6_def dec6_def Let_def)

lemma dec6_Some_plain: "dec6 c = Some v \<Longrightarrow> c \<noteq> CHR ''='' \<and> \<not> ascii_whitespace c"
  by (auto simp add: dec6_def ascii_whitespace_def Let_def split: if_splits)

lemma enc6_plain: "n < 64 \<Longrightarrow> enc6 n \<noteq> CHR ''='' \<and> \<not> ascii_whitespace (enc6 n)"
  using dec6_enc6 dec6_Some_plain by blast

lemma pad_not_whitespace: "\<not> ascii_whitespace CHR ''=''"
  by (simp add: ascii_whitespace_def)

lemma sextet_bounds:
  fixes a b c :: nat
  shows "a < 256 \<Longrightarrow> a div 4 < 64"
    and "b < 256 \<Longrightarrow> (a mod 4) * 16 + b div 16 < 64"
    and "c < 256 \<Longrightarrow> (b mod 16) * 4 + c div 64 < 64"
    and "c mod 64 < 64" and "(a mod 4) * 16 < 64" and "(b mod 16) * 4 < 64"
  by simp_all

lemma sextet_join:
  fixes a b c :: nat
  assumes "b < 256" "c < 256"
  shows "(a div 4) * 4 + ((a mod 4) * 16 + b div 16) div 16 = a"
    "(((a mod 4) * 16 + b div 16) mod 16) * 16 + ((b mod 16) * 4 + c div 64) div 4 = b"
    "(((b mod 16) * 4 + c div 64) mod 4) * 64 + c mod 64 = c"
    "(((a mod 4) * 16 + b div 16) mod 16) * 16 + ((b mod 16) * 4) div 4 = b"
    "(a div 4) * 4 + ((a mod 4) * 16) div 16 = a"
  using assms by (simp_all add: div_add1_eq mod_add_eq)

lemma b64enc_split: "b64enc bs = b64body bs @ b64pad bs"
  by (induction bs rule: b64enc.induct) simp_all

lemma b64enc_no_whitespace:
  "\<forall>u \<in> set bs. u < 256 \<Longrightarrow> filter (\<lambda>c. \<not> ascii_whitespace c) (b64enc bs) = b64enc bs"
  by (induction bs rule: b64enc.induct)
     (simp_all add: sextet_bounds enc6_plain pad_not_whitespace)
lemma length_b64enc: "length (b64enc bs) mod 4 = 0"
  by (induction bs rule: b64enc.induct) simp_all

lemma b64body_nonempty: "bs \<noteq> [] \<Longrightarrow> b64body bs \<noteq> []"
  by (induction bs rule: b64body.induct) simp_all

lemma b64body_last:
  "\<forall>u \<in> set bs. u < 256 \<Longrightarrow> b64body bs \<noteq> [] \<Longrightarrow> last (b64body bs) \<noteq> CHR ''=''"
  by (induction bs rule: b64body.induct) (simp_all add: sextet_bounds enc6_plain)

lemma b64pad_cases: "b64pad bs = [] \<or> b64pad bs = [CHR ''=''] \<or> b64pad bs = [CHR ''='', CHR ''='']"
  by (induction bs rule: b64pad.induct) simp_all

lemma strip_padding_b64enc:
  assumes "\<forall>u \<in> set bs. u < 256"
  shows "strip_padding (b64enc bs) = b64body bs"
proof (cases "bs = []")
  case True
  then show ?thesis by (simp add: strip_padding_def)
next
  case False
  with assms have body: "b64body bs \<noteq> []" "last (b64body bs) \<noteq> CHR ''=''"
    using b64body_last b64body_nonempty by blast+
  have len: "length (b64body bs @ b64pad bs) mod 4 = 0"
    using length_b64enc [of bs] by (simp add: b64enc_split)
  consider "b64pad bs = []" | "b64pad bs = [CHR ''='']" | "b64pad bs = [CHR ''='', CHR ''='']"
    using b64pad_cases by blast
  then show ?thesis
  proof cases
    case 1
    then show ?thesis using body by (simp add: strip_padding_def b64enc_split)
  next
    case 2
    then show ?thesis using body len
      by (simp add: strip_padding_def b64enc_split)
  next
    case 3
    have "b64body bs @ [CHR ''='', CHR ''=''] = (b64body bs @ [CHR ''='']) @ [CHR ''='']"
      by simp
    then show ?thesis using body len 3
      by (simp add: strip_padding_def b64enc_split butlast_append del: append_assoc)
  qed
qed

lemma length_b64body: "length (b64body bs) mod 4 \<noteq> Suc 0"
  by (induction bs rule: b64body.induct) simp_all

lemma sextets_b64body:
  "\<forall>u \<in> set bs. u < 256 \<Longrightarrow> \<exists>vs. sextets (b64body bs) = Some vs \<and> b64dec vs = bs"
proof (induction bs rule: b64body.induct)
  case (1 a b c r)
  then obtain vs where vs: "sextets (b64body r) = Some vs" "b64dec vs = r" by auto
  from 1 have lt: "a < 256" "b < 256" "c < 256" by simp_all
  show ?case using vs lt by (simp add: dec6_enc6 sextet_bounds div_add1_eq mod_add_eq)
next
  case (2 a b)
  then have lt: "a < 256" "b < 256" by simp_all
  show ?case using lt by (simp add: dec6_enc6 sextet_bounds div_add1_eq mod_add_eq)
next
  case (3 a)
  then have lt: "a < 256" by simp
  show ?case using lt by (simp add: dec6_enc6 sextet_bounds div_add1_eq mod_add_eq)
next
  case 4
  show ?case by simp
qed

lemma atob_b64enc: "\<forall>u \<in> set bs. u < 256 \<Longrightarrow> atob (b64enc bs) = Inr bs"
  using sextets_b64body [of bs]
  by (auto simp add: atob_def Let_def b64enc_no_whitespace strip_padding_b64enc length_b64body)

lemma fromCharCode_small: "\<forall>u \<in> set (map fromCharCode buffer). u < 256"
  using unsigned_less [where 'b = 8] by (auto simp add: fromCharCode_def)

lemma arrayBufferToBase64_total:
  "arrayBufferToBase64 buffer = Inr (b64enc (map fromCharCode buffer))"
  using fromCharCode_small [of buffer]
  by (auto simp add: arrayBufferToBase64_def btoa_def)


text \<open>
  C10. For every byte buffer \<open>b\<close>, \<^verbatim>\<open>arrayBufferToBase64(b)\<close> returns a string, and
  \<^verbatim>\<open>base64ToArrayBuffer\<close> of that string returns a buffer of the same length with the
  same bytes: the two helpers are an exact round trip.
\<close>

theorem base64_round_trip:
  "\<exists>s. arrayBufferToBase64 b = Inr s \<and> base64ToArrayBuffer s = Inr b"
  using fromCharCode_small [of b]
  by (simp add: arrayBufferToBase64_total base64ToArrayBuffer_def atob_b64enc
      fromCharCode_def comp_def)

theorem base64_round_trip_witness:
  "arrayBufferToBase64 [0, 255, 128, 7] = Inr ''AP+ABw=='' \<and>
   base64ToArrayBuffer ''AP+ABw=='' = Inr [0, 255, 128, 7 :: byte]"
proof -
  have enc: "arrayBufferToBase64 [0, 255, 128, 7] = Inr ''AP+ABw==''"
    by code_simp
  obtain s where "arrayBufferToBase64 [0, 255, 128, 7] = Inr s"
    and "base64ToArrayBuffer s = Inr [0, 255, 128, 7]"
    using base64_round_trip [of "[0, 255, 128, 7]"] by blast
  with enc show ?thesis by simp
qed

subsection \<open>Decoding and normalising\<close>

lemma length_int16_pairs: "length (int16_pairs bs) = length bs div 2"
  by (induction bs rule: int16_pairs.induct) simp_all

lemma int16_range:
  fixes w :: "16 word"
  shows "- 32768 \<le> sint w \<and> sint w < 32768"
  using sint_ge [of w] sint_lt [of w] by simp

lemma int16_pairs_range: "v \<in> set (int16_pairs bs) \<Longrightarrow> - 32768 \<le> v \<and> v < 32768"
  by (induction bs rule: int16_pairs.induct) (auto simp add: int16_range)

lemma write_samples_fill:
  "i + length vs \<le> length ch \<Longrightarrow>
   write_samples i vs ch =
     take i ch @ map (\<lambda>v. real_of_int v / 32768) vs @ drop (i + length vs) ch"
proof (induction vs arbitrary: i ch)
  case Nil
  then show ?case by simp
next
  case (Cons v vs)
  then have "i < length ch" by simp
  then have "take (Suc i) (ch[i := real_of_int v / 32768]) = take i ch @ [real_of_int v / 32768]"
    by (simp add: take_Suc_conv_app_nth)
  with Cons show ?case by simp
qed

lemma write_samples_all:
  "write_samples 0 vs (replicate (length vs) 0) = map (\<lambda>v. real_of_int v / 32768) vs"
  using write_samples_fill [of 0 vs "replicate (length vs) 0"] by simp

lemma normalized_range:
  "- 32768 \<le> v \<Longrightarrow> v < 32768 \<Longrightarrow> - 1 \<le> real_of_int v / 32768 \<and> real_of_int v / 32768 < 1"
  by simp

text \<open>
  C4. For every base64 input whose decoded byte length \<open>n\<close> is even, the 16-bit view
  exists and the normalising loop of \<^verbatim>\<open>playAudioChunk\<close> leaves exactly \<open>n / 2\<close> samples,
  each in the half-open interval from \<open>-1\<close> to \<open>1\<close>; for \<open>n > 0\<close> they are the samples of
  the segment that \<^verbatim>\<open>playAudioChunk\<close> builds, at 24000 Hz. (For \<open>n = 0\<close> there are no
  samples and \<^verbatim>\<open>createBuffer\<close> throws before the loop.)
\<close>

theorem pcm_decode_normalize:
  assumes "base64ToArrayBuffer audioData = Inr arrayBuffer" and "even (length arrayBuffer)"
  shows "\<exists>int16View samples.
           Int16Array arrayBuffer = Inr int16View \<and>
           samples = write_samples 0 int16View (replicate (length arrayBuffer div 2) 0) \<and>
           length samples = length arrayBuffer div 2 \<and>
           (\<forall>x \<in> set samples. - 1 \<le> x \<and> x < 1) \<and>
           (arrayBuffer \<noteq> [] \<longrightarrow> decode_segment audioData = Inr (AudioBuffer 24000 samples))"
proof -
  let ?view = "int16_pairs arrayBuffer"
  let ?samples = "map (\<lambda>v. real_of_int v / 32768) ?view"
  have view: "Int16Array arrayBuffer = Inr ?view"
    using assms(2) by (simp add: Int16Array_def)
  have fill: "write_samples 0 ?view (replicate (length arrayBuffer div 2) 0) = ?samples"
    using write_samples_all [of ?view] by (simp add: length_int16_pairs)
  have len: "length ?samples = length arrayBuffer div 2"
    by (simp add: length_int16_pairs)
  have range: "\<forall>x \<in> set ?samples. - 1 \<le> x \<and> x < 1"
  proof
    fix x assume "x \<in> set ?samples"
    then obtain v where v: "v \<in> set ?view" and x: "x = real_of_int v / 32768"
      by auto
    from int16_pairs_range [OF v] show "- 1 \<le> x \<and> x < 1"
      unfolding x by (intro normalized_range) simp_all
  qed
  have seg: "decode_segment audioData = Inr (AudioBuffer 24000 ?samples)" if "arrayBuffer \<noteq> []"
  proof -
    from that assms(2) have "length arrayBuffer div 2 \<noteq> 0"
      by (cases arrayBuffer) (auto elim: evenE)
    then show ?thesis
      using assms(1) view fill by (simp add: decode_segment_def segment_of_def createBuffer_def)
  qed
  show ?thesis
    using view fill len range seg by simp
qed

theorem pcm_decode_normalize_witness:
  "base64ToArrayBuffer ''/38AgP//'' = Inr [255, 127, 0, 128, 255, 255] \<and>
   decode_segment ''/38AgP//'' = Inr (AudioBuffer 24000 [32767 / 32768, - 1, - 1 / 32768])"
proof -
  have dec: "base64ToArrayBuffer ''/38AgP//'' = Inr [255, 127, 0, 128, 255, 255]"
    by code_simp
  have view: "Int16Array [255, 127, 0, 128, 255, 255] = Inr [32767, - 32768, - 1]"
    by code_simp
  have "even (length [255, 127, 0, 128, 255, 255 :: byte])"
    by simp
  from pcm_decode_normalize [OF dec this] view show ?thesis
    using dec by simp
qed

subsection \<open>Sequencing and the running state\<close>

lemmas sequencing = ret_def throw_def modify_def emit_def outside_def andThen_def
  tryCatch_def whenever_def

lemma running_state:
  "running =
     \<lparr> xrDeviceCamera = True, ai = True, audioStream = Some (MediaStream 1 1),
       audioContext = Some (AudioContext 16000), sourceNode = True, processorNode = True,
       isAIRunning = True, audioQueue = [], isPlayingAudio = False,
       screenshotInterval = Some 1000, currentInputText = [], currentOutputText = [],
       trace = [GetUserMedia, NewAudioContext 16000, AddModule, CreateMediaStreamSource,
                NewAudioWorkletNode, ConnectCaptureGraph, SetLiveCallbacks, StartLiveSession,
                SetInterval 1000],
       microtasks = [], playing = [] \<rparr>"
  by (simp add: running_def startGeminiLive_def setupAudioCapture_def startLiveAI_def
      startScreenshotCapture_def initial_def calm_def sequencing)

subsection \<open>Starting twice, and the transport closing\<close>

text \<open>
  C7. \<^verbatim>\<open>startGeminiLive\<close> on a manager whose session is running returns normally and
  only logs a warning: it makes no outside call, and every field of the manager keeps its
  value (the stream, the context, the nodes, the timer, the queue, the flags, the texts).
\<close>

theorem start_while_running_is_noop:
  "isAIRunning s \<Longrightarrow>
   startGeminiLive en s =
     (Returned, s\<lparr>trace := trace s @ [ConsoleWarn ''AI already running or not available'']\<rparr>)"
  by (simp add: startGeminiLive_def sequencing)

theorem start_while_running_is_noop_witness:
  "isAIRunning running \<and>
   startGeminiLive calm running =
     (Returned,
      running\<lparr>trace := trace running @ [ConsoleWarn ''AI already running or not available'']\<rparr>)"
proof -
  have r: "isAIRunning running" by (simp add: running_state)
  from start_while_running_is_noop [OF r, of calm] r show ?thesis by simp
qed

text \<open>
  C8. When the transport's \<^verbatim>\<open>onclose\<close> callback runs, in any state and so also without a
  call of \<^verbatim>\<open>stopGeminiLive\<close>, it returns normally, \<^verbatim>\<open>isAIRunning\<close> is false
  afterwards, and nothing else changes: no exception reaches the caller.
\<close>

theorem onclose_clears_running:
  "onclose s = (Returned, s\<lparr>isAIRunning := False\<rparr>) \<and> \<not> isAIRunning (snd (onclose s))"
  by (simp add: onclose_def sequencing)

theorem onclose_clears_running_witness:
  "isAIRunning running \<and> fst (onclose running) = Returned \<and> \<not> isAIRunning (snd (onclose running)) \<and>
   screenshotInterval (snd (onclose running)) = Some 1000 \<and> trace (snd (onclose running)) = trace running"
  using onclose_clears_running [of running] by (simp add: running_state)


subsection \<open>Sending\<close>








subsection \<open>The frame sampler\<close>

lemma capture_returns: "fst (captureAndSendScreenshot en s) = Returned"
  by (simp add: captureAndSendScreenshot_def sendVideoFrame_def sequencing
      split: snapshot_value.split)

lemma capture_frame: "(snd (captureAndSendScreenshot en s))\<lparr>trace := trace s\<rparr> = s"
  by (simp add: captureAndSendScreenshot_def sendVideoFrame_def sequencing
      split: snapshot_value.split)

lemma capture_failure:
  "xrDeviceCamera s \<Longrightarrow> throws en GetSnapshot \<Longrightarrow>
   captureAndSendScreenshot en s =
     (Returned, s\<lparr>trace := trace s @ [GetSnapshot, ConsoleError ''Failed to capture screenshot:'']\<rparr>)"
  by (simp add: captureAndSendScreenshot_def sequencing)

lemma capture_success:
  assumes "xrDeviceCamera s" "isAIRunning s" "ai s" "hasSendRealtimeInput en"
    and "\<not> throws en GetSnapshot" "snapshot en = SnapshotString base64Image"
    and "\<not> throws en (SendRealtimeInput (VideoInput (strip_data_url base64Image) ''image/jpeg''))"
  shows "captureAndSendScreenshot en s =
     (Returned,
      s\<lparr>trace := trace s @
         [GetSnapshot, SendRealtimeInput (VideoInput (strip_data_url base64Image) ''image/jpeg'')]\<rparr>)"
  using assms by (simp add: captureAndSendScreenshot_def sendVideoFrame_def sequencing)

lemma tick_active: "screenshotInterval s \<noteq> None \<Longrightarrow> tick en s = captureAndSendScreenshot en s"
  by (auto simp add: tick_def)

lemma tick_returns: "fst (tick en s) = Returned"
  by (simp add: tick_def capture_returns ret_def)

lemma tick_frame: "(snd (tick en s))\<lparr>trace := trace s\<rparr> = s"
  by (simp add: tick_def capture_frame ret_def)

lemma tick_fields:
  "screenshotInterval (snd (tick en s)) = screenshotInterval s"
  "xrDeviceCamera (snd (tick en s)) = xrDeviceCamera s"
  "isAIRunning (snd (tick en s)) = isAIRunning s"
  "ai (snd (tick en s)) = ai s"
proof -
  let ?t = "snd (tick en s)"
  have eq: "?t\<lparr>trace := trace s\<rparr> = s" by (rule tick_frame)
  have "screenshotInterval (?t\<lparr>trace := trace s\<rparr>) = screenshotInterval s"
    "xrDeviceCamera (?t\<lparr>trace := trace s\<rparr>) = xrDeviceCamera s"
    "isAIRunning (?t\<lparr>trace := trace s\<rparr>) = isAIRunning s"
    "ai (?t\<lparr>trace := trace s\<rparr>) = ai s"
    by (simp_all only: eq)
  then show "screenshotInterval ?t = screenshotInterval s" "xrDeviceCamera ?t = xrDeviceCamera s"
    "isAIRunning ?t = isAIRunning s" "ai ?t = ai s"
    by simp_all
qed

lemma ticks_return: "set (fst (ticks ens s)) \<subseteq> {Returned}"
proof (induction ens arbitrary: s)
  case Nil
  show ?case by simp
next
  case (Cons en ens)
  have "fst (tick en s) = Returned" by (rule tick_returns)
  with Cons [of "snd (tick en s)"] show ?case
    by (auto split: prod.splits)
qed

lemma ticks_keep_timer: "screenshotInterval (snd (ticks ens s)) = screenshotInterval s"
proof (induction ens arbitrary: s)
  case Nil
  show ?case by simp
next
  case (Cons en ens)
  from Cons [of "snd (tick en s)"] tick_fields(1) [of en s] show ?case
    by (auto split: prod.splits)
qed

lemma split_no_separator: "sep \<notin> set p \<Longrightarrow> split sep p = [p]"
  by (induction p) auto

lemma split_at_first: "sep \<notin> set h \<Longrightarrow> split sep (h @ sep # r) = h # split sep r"
  by (induction h) auto

lemma strip_data_url_prefixed:
  assumes "CHR '','' \<notin> set header" "CHR '','' \<notin> set payload"
  shows "strip_data_url (''data:'' @ header @ '','' @ payload) = Some payload"
proof -
  have "CHR '','' \<notin> set (''data:'' @ header)" using assms(1) by simp
  from split_at_first [OF this, of payload] split_no_separator [OF assms(2)]
  have "split CHR '','' (''data:'' @ header @ '','' @ payload) = [''data:'' @ header, payload]"
    by simp
  then show ?thesis
    by (simp add: strip_data_url_def startsWith_def element_def)
qed

lemma strip_data_url_plain:
  "\<not> startsWith base64Image ''data:'' \<Longrightarrow> strip_data_url base64Image = Some base64Image"
  by (simp add: strip_data_url_def)


text \<open>
  C9. \<^verbatim>\<open>captureAndSendScreenshot\<close> always returns normally and changes nothing but the
  trace, so the timer stays set and no tick of any sequence throws. When the capture
  throws, the error is logged. Whatever happened on one tick, the next tick with a
  working camera captures and forwards its frame. A data URL (the text \<open>data:\<close>, a header
  and a payload, neither with a comma, joined by a comma) is forwarded as its payload, and
  a text that does not start with \<open>data:\<close> is forwarded as it is.
\<close>

theorem screenshot_tick_failure_is_contained:
  "fst (captureAndSendScreenshot en s) = Returned \<and>
   (snd (captureAndSendScreenshot en s))\<lparr>trace := trace s\<rparr> = s \<and>
   set (fst (ticks ens s)) \<subseteq> {Returned} \<and>
   screenshotInterval (snd (ticks ens s)) = screenshotInterval s \<and>
   (xrDeviceCamera s \<and> throws en GetSnapshot \<longrightarrow>
      captureAndSendScreenshot en s =
        (Returned,
         s\<lparr>trace := trace s @ [GetSnapshot, ConsoleError ''Failed to capture screenshot:'']\<rparr>)) \<and>
   (xrDeviceCamera s \<and> isAIRunning s \<and> ai s \<and> screenshotInterval s \<noteq> None \<and>
    hasSendRealtimeInput later \<and> \<not> throws later GetSnapshot \<and>
    snapshot later = SnapshotString base64Image \<and>
    \<not> throws later (SendRealtimeInput (VideoInput (strip_data_url base64Image) ''image/jpeg'')) \<longrightarrow>
      ticks [en, later] s =
        ([Returned, Returned],
         (snd (tick en s))\<lparr>trace := trace (snd (tick en s)) @
            [GetSnapshot,
             SendRealtimeInput (VideoInput (strip_data_url base64Image) ''image/jpeg'')]\<rparr>)) \<and>
   (CHR '','' \<notin> set header \<and> CHR '','' \<notin> set payload \<longrightarrow>
      strip_data_url (''data:'' @ header @ '','' @ payload) = Some payload) \<and>
   (\<not> startsWith base64Image ''data:'' \<longrightarrow> strip_data_url base64Image = Some base64Image)"
proof -
  have second: "ticks [en, later] s =
        ([Returned, Returned],
         (snd (tick en s))\<lparr>trace := trace (snd (tick en s)) @
            [GetSnapshot,
             SendRealtimeInput (VideoInput (strip_data_url base64Image) ''image/jpeg'')]\<rparr>)"
    if "xrDeviceCamera s" "isAIRunning s" "ai s" "screenshotInterval s \<noteq> None"
      "hasSendRealtimeInput later" "\<not> throws later GetSnapshot"
      "snapshot later = SnapshotString base64Image"
      "\<not> throws later (SendRealtimeInput (VideoInput (strip_data_url base64Image) ''image/jpeg''))"
  proof -
    obtain t where first: "tick en s = (Returned, t)"
      using tick_returns [of en s] by (cases "tick en s") simp
    have t: "xrDeviceCamera t" "isAIRunning t" "ai t" "screenshotInterval t \<noteq> None"
      using that tick_fields [where en = en and s = s] by (simp_all add: first)
    have "tick later t =
        (Returned,
         t\<lparr>trace := trace t @
            [GetSnapshot,
             SendRealtimeInput (VideoInput (strip_data_url base64Image) ''image/jpeg'')]\<rparr>)"
      using tick_active [OF t(4), of later]
        capture_success [OF t(1) t(2) t(3) that(5) that(6) that(7) that(8)]
      by simp
    with first show ?thesis by simp
  qed
  show ?thesis
    using capture_returns [where en = en and s = s] capture_frame [where en = en and s = s]
      ticks_return [where ens = ens and s = s] ticks_keep_timer [where ens = ens and s = s]
      capture_failure [where en = en and s = s] second
      strip_data_url_prefixed [where header = header and payload = payload]
      strip_data_url_plain [where base64Image = base64Image]
    by blast
qed

theorem screenshot_tick_failure_is_contained_witness:
  "xrDeviceCamera running \<and> isAIRunning running \<and> ai running \<and>
   screenshotInterval running \<noteq> None \<and>
   throws (calm\<lparr>throws := (\<lambda>e. e = GetSnapshot)\<rparr>) GetSnapshot \<and>
   hasSendRealtimeInput calm \<and> \<not> throws calm GetSnapshot \<and>
   snapshot calm = SnapshotString ''data:image/jpeg;base64,QUJD'' \<and>
   strip_data_url ''data:image/jpeg;base64,QUJD'' = Some ''QUJD'' \<and>
   ticks [calm\<lparr>throws := (\<lambda>e. e = GetSnapshot)\<rparr>, calm] running =
     ([Returned, Returned],
      running\<lparr>trace := trace running @
        [GetSnapshot, ConsoleError ''Failed to capture screenshot:'',
         GetSnapshot, SendRealtimeInput (VideoInput (Some ''QUJD'') ''image/jpeg'')]\<rparr>) \<and>
   screenshotInterval
     (snd (ticks [calm\<lparr>throws := (\<lambda>e. e = GetSnapshot)\<rparr>, calm] running)) = Some 1000"
proof -
  let ?failing = "calm\<lparr>throws := (\<lambda>e. e = GetSnapshot)\<rparr>"
  have st: "xrDeviceCamera running" "isAIRunning running" "ai running"
    "screenshotInterval running = Some 1000"
    by (simp_all add: running_state)
  have envs: "throws ?failing GetSnapshot" "hasSendRealtimeInput calm" "\<not> throws calm e"
    "snapshot calm = SnapshotString ''data:image/jpeg;base64,QUJD''" for e
    by (simp_all add: calm_def)
  have commas: "CHR '','' \<notin> set ''image/jpeg;base64''" "CHR '','' \<notin> set ''QUJD''"
    by simp_all
  note inst = screenshot_tick_failure_is_contained
    [of ?failing running "[?failing, calm]" calm "''data:image/jpeg;base64,QUJD''"
      "''image/jpeg;base64''" "''QUJD''"]
  from inst commas have strip: "strip_data_url ''data:image/jpeg;base64,QUJD'' = Some ''QUJD''"
    by simp
  from inst st envs have first: "captureAndSendScreenshot ?failing running =
      (Returned,
       running\<lparr>trace := trace running @ [GetSnapshot, ConsoleError ''Failed to capture screenshot:'']\<rparr>)"
    by simp
  from inst st envs strip first show ?thesis
    by (simp add: tick_def)
qed

subsection \<open>The playback loop\<close>

lemma playNext_flag: "isPlayingAudio (snd (playNextAudioBuffer en s)) = (audioQueue s \<noteq> [])"
  by (cases "audioQueue s"; cases "audioContext s")
     (simp_all add: playNextAudioBuffer_def Let_def sequencing)

lemma playNext_idle:
  "audioQueue s = [] \<Longrightarrow> playNextAudioBuffer en s = (Returned, s\<lparr>isPlayingAudio := False\<rparr>)"
  by (simp add: playNextAudioBuffer_def sequencing)

lemma playNext_start:
  assumes "\<forall>e. \<not> throws en e" "audioContext s = Some ctx" "audioQueue s = b # rest"
  shows "playNextAudioBuffer en s =
     (Returned,
      s\<lparr>isPlayingAudio := True, audioQueue := rest,
        trace := trace s @ [CreateBufferSource ctx, ConnectSource, SourceStart b],
        playing := playing s @ [b]\<rparr>)"
  using assms by (simp add: playNextAudioBuffer_def Let_def sequencing)

lemma started_append: "started (xs @ ys) = started xs @ started ys"
  by (induction xs rule: started.induct) simp_all

lemma enqueued_append: "enqueued (xs @ ys) = enqueued xs @ enqueued ys"
  by (induction xs rule: enqueued.induct) simp_all

lemma playback_step_consistent:
  assumes quiet: "\<forall>e. \<not> throws en e"
    and ok: "playback_consistent s"
    and step: "playback_step en ev s = Some s'"
  shows "playback_consistent s' \<and>
     started (trace s') @ audioQueue s' = started (trace s) @ audioQueue s @ enqueued [ev] \<and>
     length (started (trace s')) + length (playing s) =
       length (started (trace s)) + completions [ev] + length (playing s')"
proof -
  from ok obtain ctx where ctx: "audioContext s = Some ctx"
    by (auto simp add: playback_consistent_def)
  show ?thesis
  proof (cases ev)
    case (Enqueue b)
    show ?thesis
    proof (cases "isPlayingAudio s")
      case True
      with step ok Enqueue show ?thesis
        by (auto simp add: enqueue_def playback_consistent_def sequencing started_append)
    next
      case False
      with ok have idle: "audioQueue s = []" "playing s = []"
        by (auto simp add: playback_consistent_def)
      let ?s1 = "emit (AudioQueuePush b) (s\<lparr>audioQueue := audioQueue s @ [b]\<rparr>)"
      have "playNextAudioBuffer en ?s1 =
        (Returned,
         ?s1\<lparr>isPlayingAudio := True, audioQueue := [],
           trace := trace ?s1 @ [CreateBufferSource ctx, ConnectSource, SourceStart b],
           playing := playing ?s1 @ [b]\<rparr>)"
        by (rule playNext_start [OF quiet]) (simp_all add: emit_def ctx idle)
      with step Enqueue False idle ctx show ?thesis
        by (auto simp add: enqueue_def playback_consistent_def sequencing started_append)
    qed
  next
    case Ended
    with step have busy: "playing s \<noteq> []" and s': "s' = snd (source_onended en s)"
      by (auto split: if_splits)
    from ok busy obtain p where p: "playing s = [p]"
      by (cases "playing s") (auto simp add: playback_consistent_def)
    let ?s1 = "s\<lparr>playing := tl (playing s)\<rparr>"
    show ?thesis
    proof (cases "audioQueue s")
      case Nil
      with s' p ctx Ended show ?thesis
        by (auto simp add: source_onended_def playNext_idle playback_consistent_def)
    next
      case (Cons b rest)
      have "playNextAudioBuffer en ?s1 =
        (Returned,
         ?s1\<lparr>isPlayingAudio := True, audioQueue := rest,
           trace := trace ?s1 @ [CreateBufferSource ctx, ConnectSource, SourceStart b],
           playing := playing ?s1 @ [b]\<rparr>)"
        by (rule playNext_start [OF quiet]) (simp_all add: ctx Cons)
      with s' p ctx Ended Cons show ?thesis
        by (auto simp add: source_onended_def playback_consistent_def started_append)
    qed
  qed
qed

lemma playback_run_consistent:
  assumes quiet: "\<forall>e. \<not> throws en e"
  shows "playback_consistent s \<Longrightarrow> playback_run en evs s = Some s' \<Longrightarrow>
     playback_consistent s' \<and>
     started (trace s') @ audioQueue s' = started (trace s) @ audioQueue s @ enqueued evs \<and>
     length (started (trace s')) + length (playing s) =
       length (started (trace s)) + completions evs + length (playing s')"
proof (induction evs arbitrary: s)
  case Nil
  then show ?case by simp
next
  case (Cons ev evs)
  from Cons.prems(2) obtain t where t: "playback_step en ev s = Some t"
    and run: "playback_run en evs t = Some s'"
    by (auto split: option.splits)
  note one = playback_step_consistent [OF quiet Cons.prems(1) t]
  note rest = Cons.IH [OF conjunct1 [OF one] run]
  have enq: "enqueued (ev # evs) = enqueued [ev] @ enqueued evs"
    using enqueued_append [of "[ev]" evs] by simp
  have cmp: "completions (ev # evs) = completions [ev] + completions evs"
    by (cases ev) simp_all
  from one rest show ?case
    unfolding enq cmp by auto
qed

text \<open>
  C5. Take a manager that is idle (empty queue, nothing playing) and has an audio context,
  and an environment whose audio calls do not throw. After any sequence of enqueue
  operations and natural completions: the segments started so far, followed by those
  still waiting, are the enqueued segments in their order, so playback is first-in
  first-out and skips nothing; at most one source plays; the number of started segments
  is the number of completions plus the one that plays, so a segment starts only when
  the one before it has ended; and \<^verbatim>\<open>isPlayingAudio\<close> is false exactly when every
  enqueued segment has been played to its end, the queue being empty then.
  \<^verbatim>\<open>playNextAudioBuffer\<close> sets the flag to false exactly when it finds the queue empty.
\<close>

theorem playback_fifo_no_overlap:
  assumes "\<forall>e. \<not> throws en e"
    and "audioContext s \<noteq> None" and "audioQueue s = []" and "\<not> isPlayingAudio s"
    and "playing s = []"
    and "playback_run en evs s = Some s'"
  shows "started (trace s') @ audioQueue s' = started (trace s) @ enqueued evs \<and>
     length (playing s') \<le> 1 \<and>
     length (started (trace s')) = length (started (trace s)) + completions evs + length (playing s') \<and>
     isPlayingAudio s' = (playing s' \<noteq> []) \<and>
     isPlayingAudio s' = (completions evs < length (enqueued evs)) \<and>
     (isPlayingAudio s' \<or> audioQueue s' = []) \<and>
     isPlayingAudio (snd (playNextAudioBuffer en t)) = (audioQueue t \<noteq> [])"
proof -
  have ok: "playback_consistent s"
    using assms(2-5) by (simp add: playback_consistent_def)
  note run = playback_run_consistent [OF assms(1) ok assms(6)]
  from run have ok': "playback_consistent s'" by simp
  from run assms(3) have fifo:
    "started (trace s') @ audioQueue s' = started (trace s) @ enqueued evs" by simp
  from run assms(5) have count:
    "length (started (trace s')) = length (started (trace s)) + completions evs + length (playing s')"
    by simp
  from fifo have "length (started (trace s')) + length (audioQueue s') =
      length (started (trace s)) + length (enqueued evs)"
    by (metis length_append)
  with count have total:
    "length (enqueued evs) = completions evs + length (playing s') + length (audioQueue s')"
    by simp
  from ok' have flag: "isPlayingAudio s' = (playing s' \<noteq> [])"
    and wait: "isPlayingAudio s' \<or> audioQueue s' = []"
    and one: "length (playing s') \<le> 1"
    by (auto simp add: playback_consistent_def)
  from total flag wait have idle: "isPlayingAudio s' = (completions evs < length (enqueued evs))"
    by (cases "playing s'") auto
  from fifo one count flag idle wait playNext_flag [of en t] show ?thesis
    by simp
qed

theorem playback_fifo_no_overlap_witness:
  "(\<forall>e. \<not> throws calm e) \<and> audioContext running \<noteq> None \<and> audioQueue running = [] \<and>
   \<not> isPlayingAudio running \<and> playing running = [] \<and>
   (\<exists>s'. playback_run calm
           [Enqueue (AudioBuffer 24000 [0]), Enqueue (AudioBuffer 24000 [1 / 2]), Ended,
            Enqueue (AudioBuffer 24000 [- 1]), Ended] running = Some s' \<and>
         started (trace s') = [AudioBuffer 24000 [0], AudioBuffer 24000 [1 / 2], AudioBuffer 24000 [- 1]] \<and>
         audioQueue s' = [] \<and> playing s' = [AudioBuffer 24000 [- 1]] \<and> isPlayingAudio s')"
proof -
  let ?evs = "[Enqueue (AudioBuffer 24000 [0]), Enqueue (AudioBuffer 24000 [1 / 2]), Ended,
            Enqueue (AudioBuffer 24000 [- 1]), Ended]"
  have quiet: "\<forall>e. \<not> throws calm e"
    by (simp add: calm_def)
  have st: "audioContext running \<noteq> None" "audioQueue running = []" "\<not> isPlayingAudio running"
    "playing running = []" "started (trace running) = []"
    by (simp_all add: running_state)
  obtain s' where run: "playback_run calm ?evs running = Some s'"
    and q: "audioQueue s' = []" and p: "playing s' = [AudioBuffer 24000 [- 1]]"
    by (simp add: running_state calm_def enqueue_def source_onended_def playNextAudioBuffer_def
        Let_def sequencing)
  from playback_fifo_no_overlap [OF quiet st(1) st(2) st(3) st(4) run] st(5) q p run quiet st
  show ?thesis by simp
qed

subsection \<open>Inbound messages\<close>

lemma payload_bytes: "base64ToArrayBuffer ''AIA='' = Inr [0, 128]"
  by code_simp

lemma payload_view: "Int16Array [0, 128] = Inr [- 32768]"
  by code_simp

lemma payload_segment: "segment_of [0, 128] = Inr (AudioBuffer 24000 [- 1])"
  by (simp add: segment_of_def createBuffer_def payload_view)

lemma handle_audio_and_turn:
  "handleAIMessage calm audio_and_turn running =
     (Returned,
      running\<lparr>trace := trace running @ [DispatchEvent TurnComplete],
        microtasks := [PlayAudioChunkResume ''AIA='' Returned]\<rparr>)"
  by (simp add: handleAIMessage_def audio_and_turn_def playAudioChunk_def
      initializeAudioContext_def dispatchTranscription_def running_state calm_def sequencing)

lemma first_message:
  "onmessage calm audio_and_turn running =
     (Returned,
      running\<lparr>isPlayingAudio := True,
        trace := trace running @
          [DispatchEvent TurnComplete, AudioQueuePush (AudioBuffer 24000 [- 1]),
           CreateBufferSource (AudioContext 16000), ConnectSource,
           SourceStart (AudioBuffer 24000 [- 1])],
        playing := [AudioBuffer 24000 [- 1]]\<rparr>)"
  unfolding onmessage_def task_def handle_audio_and_turn
  by (simp add: playAudioChunk_resume_def payload_bytes payload_segment enqueue_def
      playNextAudioBuffer_def Let_def running_state calm_def sequencing)

text \<open>
  C3, evaluated on the code. The manager \<open>running\<close> receives one message with two bytes
  of audio and \<^verbatim>\<open>turnComplete: true\<close>. \<^verbatim>\<open>handleAIMessage\<close> returns with the
  \<^verbatim>\<open>turnComplete\<close> event dispatched and the queue still empty: \<^verbatim>\<open>playAudioChunk\<close> has
  stopped at its \<^verbatim>\<open>await\<close>, and its rest is a pending microtask. The segment is pushed
  when the microtask runs, after the event. One segment, one event, in the order
  event, segment.
\<close>

theorem turn_complete_dispatched_before_enqueue:
  "handleAIMessage calm audio_and_turn running =
     (Returned,
      running\<lparr>trace := trace running @ [DispatchEvent TurnComplete],
        microtasks := [PlayAudioChunkResume ''AIA='' Returned]\<rparr>) \<and>
   audioQueue (snd (handleAIMessage calm audio_and_turn running)) = [] \<and>
   trace (snd (onmessage calm audio_and_turn running)) =
     trace running @
       [DispatchEvent TurnComplete, AudioQueuePush (AudioBuffer 24000 [- 1]),
        CreateBufferSource (AudioContext 16000), ConnectSource,
        SourceStart (AudioBuffer 24000 [- 1])]"
  unfolding first_message handle_audio_and_turn
  by (simp add: running_state)

text \<open>
  C2, evaluated on the code. A session is started on a fresh manager and the same message
  arrives. The only context ever created is the capture context of
  \<^verbatim>\<open>setupAudioCapture\<close>, at 16000 Hz; \<^verbatim>\<open>initializeAudioContext\<close> finds the field set
  and creates nothing, and the buffer source of the playback is created on the 16000 Hz
  context. On a manager with no session the same message does create a 24000 Hz context.
\<close>

theorem playback_runs_on_capture_context:
  "trace (snd (onmessage calm audio_and_turn (snd (startGeminiLive calm (initial True True))))) =
     [GetUserMedia, NewAudioContext 16000, AddModule, CreateMediaStreamSource,
      NewAudioWorkletNode, ConnectCaptureGraph, SetLiveCallbacks, StartLiveSession,
      SetInterval 1000, DispatchEvent TurnComplete, AudioQueuePush (AudioBuffer 24000 [- 1]),
      CreateBufferSource (AudioContext 16000), ConnectSource,
      SourceStart (AudioBuffer 24000 [- 1])] \<and>
   audioContext (snd (onmessage calm audio_and_turn (snd (startGeminiLive calm (initial True True))))) =
     Some (AudioContext 16000) \<and>
   trace (snd (onmessage calm audio_and_turn (initial True True))) =
     [NewAudioContext 24000, DispatchEvent TurnComplete,
      AudioQueuePush (AudioBuffer 24000 [- 1]), CreateBufferSource (AudioContext 24000),
      ConnectSource, SourceStart (AudioBuffer 24000 [- 1])]"
proof -
  have session: "onmessage calm audio_and_turn (snd (startGeminiLive calm (initial True True))) =
      onmessage calm audio_and_turn running"
    by (simp only: running_def)
  have fresh: "trace (snd (onmessage calm audio_and_turn (initial True True))) =
     [NewAudioContext 24000, DispatchEvent TurnComplete,
      AudioQueuePush (AudioBuffer 24000 [- 1]), CreateBufferSource (AudioContext 24000),
      ConnectSource, SourceStart (AudioBuffer 24000 [- 1])]"
    by (simp add: onmessage_def task_def handleAIMessage_def audio_and_turn_def
        playAudioChunk_def initializeAudioContext_def dispatchTranscription_def
        playAudioChunk_resume_def payload_bytes payload_segment enqueue_def
        playNextAudioBuffer_def initial_def calm_def sequencing)
  show ?thesis
    unfolding session first_message
    by (simp add: fresh) (simp add: running_state)
qed

subsection \<open>Stopping\<close>





















end
